theory Spec2Isabelle
  imports Complex_Main "HOL-Library.Word"
begin

section \<open>The STL ingestion engine: server analysis and client validation\<close>

text \<open>
  The development embeds \<^verbatim>\<open>server/lib/stlParser.ts\<close> (\<^verbatim>\<open>analyzeSTL\<close>,
  \<^verbatim>\<open>isValidSTL\<close> and their helpers) and \<^verbatim>\<open>client/src/lib/stlParser.ts\<close>
  (\<^verbatim>\<open>validateSTLFile\<close> and its sniffer).

  Modelling conventions.
  \<^item> A \<^verbatim>\<open>Buffer\<close> or \<^verbatim>\<open>ArrayBuffer\<close> is a list of bytes. \<^verbatim>\<open>analyzeSTL\<close> receives
    the bytes that \<^verbatim>\<open>readFile\<close> returned; reading the file itself is outside the model.
  \<^item> A JavaScript string is the list of its code points. Every literal and every
    character class the source compares with lies in the Basic Multilingual Plane, so
    code points and UTF-16 code units give the same answers.
  \<^item> A JavaScript \<^verbatim>\<open>number\<close> is an exact rational, or \<^verbatim>\<open>NaN\<close>, or one of the two
    infinities. Rounding and overflow of double arithmetic are not modelled, and
    \<^verbatim>\<open>-0\<close> is identified with \<^verbatim>\<open>0\<close> (as \<^verbatim>\<open>===\<close> does).
  \<^item> A thrown exception is the left injection of a sum; \<^verbatim>\<open>try\<close>/\<^verbatim>\<open>catch\<close> is a case
    distinction on it.
\<close>

subsection \<open>Bytes, strings, errors\<close>

type_synonym byte = "8 word"
type_synonym buffer = "byte list"
type_synonym jsstring = "nat list"

text \<open>
  \<open>RangeError\<close> is what the runtime's bounds checks throw; \<open>Failed e\<close> is the
  \<^verbatim>\<open>new Error(`Failed to analyze STL file: ${error.message}`)\<close> of \<^verbatim>\<open>analyzeSTL\<close>.
\<close>

datatype js_error = RangeError | Failed js_error

text \<open>An ASCII literal of the source as a list of code points.\<close>

definition lit :: "string \<Rightarrow> jsstring" where
  "lit s = map of_char s"

subsection \<open>UTF-8 decoding with replacement\<close>

text \<open>
  Both \<^verbatim>\<open>buffer.toString('utf8')\<close> and \<^verbatim>\<open>new TextDecoder().decode\<close> decode UTF-8 and
  replace every ill-formed sequence by U+FFFD. The decoder below is the state machine
  of the Encoding Standard: \<open>needed\<close> continuation bytes are still expected, \<open>cp\<close> is
  the code point under construction, and \<open>lo\<close>..\<open>hi\<close> is the range allowed for the next
  continuation byte. A byte outside the range ends the sequence with U+FFFD and is
  decoded again from the initial state.
\<close>

fun utf8_decode_from :: "nat \<Rightarrow> nat \<Rightarrow> nat \<Rightarrow> nat \<Rightarrow> buffer \<Rightarrow> jsstring" where
  "utf8_decode_from needed cp lo hi [] = (if needed = 0 then [] else [0xFFFD])"
| "utf8_decode_from needed cp lo hi (b # bs) =
     (if needed = 0 then
        (if unat b \<le> 0x7F then unat b # utf8_decode_from 0 0 0x80 0xBF bs
         else if 0xC2 \<le> unat b \<and> unat b \<le> 0xDF then
           utf8_decode_from 1 (unat b mod 32) 0x80 0xBF bs
         else if 0xE0 \<le> unat b \<and> unat b \<le> 0xEF then
           utf8_decode_from 2 (unat b mod 16)
             (if unat b = 0xE0 then 0xA0 else 0x80) (if unat b = 0xED then 0x9F else 0xBF) bs
         else if 0xF0 \<le> unat b \<and> unat b \<le> 0xF4 then
           utf8_decode_from 3 (unat b mod 8)
             (if unat b = 0xF0 then 0x90 else 0x80) (if unat b = 0xF4 then 0x8F else 0xBF) bs
         else 0xFFFD # utf8_decode_from 0 0 0x80 0xBF bs)
      else if unat b < lo \<or> hi < unat b then
        0xFFFD # utf8_decode_from 0 0 0x80 0xBF (b # bs)
      else if needed = 1 then
        (cp * 64 + unat b mod 64) # utf8_decode_from 0 0 0x80 0xBF bs
      else utf8_decode_from (needed - 1) (cp * 64 + unat b mod 64) 0x80 0xBF bs)"

definition utf8_decode :: "buffer \<Rightarrow> jsstring" where
  "utf8_decode bs = utf8_decode_from 0 0 0x80 0xBF bs"

text \<open>
  \<^verbatim>\<open>buffer.toString('utf8', start, end)\<close> of Node: the range is clamped to the buffer and
  a byte order mark is kept.
\<close>

definition toString_utf8 :: "buffer \<Rightarrow> nat \<Rightarrow> nat \<Rightarrow> jsstring" where
  "toString_utf8 buffer start end = utf8_decode (take (end - start) (drop start buffer))"

text \<open>
  \<^verbatim>\<open>new TextDecoder().decode(bytes)\<close>: not fatal, and a leading byte order mark is
  removed.
\<close>

definition TextDecoder_decode :: "buffer \<Rightarrow> jsstring" where
  "TextDecoder_decode bs =
     (if take 3 bs = [0xEF, 0xBB, 0xBF] then utf8_decode (drop 3 bs) else utf8_decode bs)"

text \<open>
  \<^verbatim>\<open>new Uint8Array(arrayBuffer, byteOffset, length)\<close> throws a \<^verbatim>\<open>RangeError\<close> when the
  view does not fit into the buffer.
\<close>

definition Uint8Array :: "buffer \<Rightarrow> nat \<Rightarrow> nat \<Rightarrow> js_error + buffer" where
  "Uint8Array arrayBuffer byteOffset len =
     (if length arrayBuffer < byteOffset + len then Inl RangeError
      else Inr (take len (drop byteOffset arrayBuffer)))"

subsection \<open>String operations\<close>

text \<open>The white space of \<^verbatim>\<open>String.prototype.trim\<close> and of \<^verbatim>\<open>\s\<close> in a regular expression.\<close>

definition isWhiteSpace :: "nat \<Rightarrow> bool" where
  "isWhiteSpace c \<longleftrightarrow>
     c = 0x09 \<or> c = 0x0A \<or> c = 0x0B \<or> c = 0x0C \<or> c = 0x0D \<or> c = 0x20 \<or> c = 0xA0 \<or>
     c = 0x1680 \<or> (0x2000 \<le> c \<and> c \<le> 0x200A) \<or> c = 0x2028 \<or> c = 0x2029 \<or>
     c = 0x202F \<or> c = 0x205F \<or> c = 0x3000 \<or> c = 0xFEFF"

definition trim :: "jsstring \<Rightarrow> jsstring" where
  "trim s = rev (dropWhile isWhiteSpace (rev (dropWhile isWhiteSpace s)))"

text \<open>
  \<^verbatim>\<open>toLowerCase\<close>. The ASCII capitals and the two other code points whose lower case
  contains an ASCII letter (U+0130 and the Kelvin sign) are mapped as Unicode does.
  Every other code point outside ASCII lower-cases to code points outside ASCII and is
  left as it is: the source compares the result with ASCII literals only.
\<close>

definition lowerCodePoint :: "nat \<Rightarrow> jsstring" where
  "lowerCodePoint c =
     (if 0x41 \<le> c \<and> c \<le> 0x5A then [c + 0x20]
      else if c = 0x130 then [0x69, 0x307]
      else if c = 0x212A then [0x6B]
      else [c])"

definition toLowerCase :: "jsstring \<Rightarrow> jsstring" where
  "toLowerCase s = concat (map lowerCodePoint s)"

definition startsWith :: "jsstring \<Rightarrow> jsstring \<Rightarrow> bool" where
  "startsWith s p \<longleftrightarrow> take (length p) s = p"

definition endsWith :: "jsstring \<Rightarrow> jsstring \<Rightarrow> bool" where
  "endsWith s p \<longleftrightarrow> length p \<le> length s \<and> drop (length s - length p) s = p"

text \<open>\<^verbatim>\<open>content.split('\n')\<close>: the pieces between the separators, the empty ones included.\<close>

fun split_on :: "nat \<Rightarrow> jsstring \<Rightarrow> jsstring list" where
  "split_on d [] = [[]]"
| "split_on d (c # cs) =
     (if c = d then [] # split_on d cs
      else (case split_on d cs of [] \<Rightarrow> [[c]] | l # ls \<Rightarrow> (c # l) # ls))"

text \<open>\<^verbatim>\<open>s.split(/\s+/)\<close>: the pieces between maximal runs of white space.\<close>

function split_ws :: "jsstring \<Rightarrow> jsstring list" where
  "split_ws [] = [[]]"
| "split_ws (c # cs) =
     (if isWhiteSpace c then [] # split_ws (dropWhile isWhiteSpace cs)
      else (case split_ws cs of [] \<Rightarrow> [[c]] | t # ts \<Rightarrow> (c # t) # ts))"
  by pat_completeness auto
termination
  by (relation "measure length") (auto simp: length_dropWhile_le less_Suc_eq_le)

text \<open>
  \<^verbatim>\<open>text.match(/solid\s+(.*)/)\<close> is not \<^verbatim>\<open>null\<close>: somewhere in the text the letters
  \<^verbatim>\<open>solid\<close> are followed by a white space character. The group \<^verbatim>\<open>(.*)\<close> also matches
  the empty string, so it asks for nothing more.
\<close>

fun match_solid :: "jsstring \<Rightarrow> bool" where
  "match_solid [] = False"
| "match_solid (c # cs) =
     ((startsWith (c # cs) (lit ''solid'') \<and>
        (case drop 5 (c # cs) of [] \<Rightarrow> False | w # _ \<Rightarrow> isWhiteSpace w))
      \<or> match_solid cs)"

subsection \<open>The format sniffers\<close>

text \<open>Server: \<^verbatim>\<open>buffer.toString('utf8', 0, 6).trim().toLowerCase() === "solid"\<close>.\<close>

definition isAsciiSTL :: "buffer \<Rightarrow> bool" where
  "isAsciiSTL buffer \<longleftrightarrow>
     (let header = toString_utf8 buffer 0 6
      in toLowerCase (trim header) = lit ''solid'')"

text \<open>Client: the six-byte view is taken first, and taking it can throw.\<close>

definition client_isAsciiSTL :: "buffer \<Rightarrow> js_error + bool" where
  "client_isAsciiSTL arrayBuffer =
     (case Uint8Array arrayBuffer 0 6 of
        Inl e \<Rightarrow> Inl e
      | Inr header \<Rightarrow>
          (let text = TextDecoder_decode header
           in Inr (toLowerCase (trim text) = lit ''solid'')))"

subsection \<open>Numbers\<close>

datatype number = NaN | NegInfinity | Num rat | PosInfinity

text \<open>\<^verbatim>\<open>Math.min\<close> and \<^verbatim>\<open>Math.max\<close> of two arguments: \<^verbatim>\<open>NaN\<close> as soon as one of them is.\<close>

fun Math_min :: "number \<Rightarrow> number \<Rightarrow> number" where
  "Math_min NaN b = NaN"
| "Math_min a NaN = NaN"
| "Math_min NegInfinity b = NegInfinity"
| "Math_min a NegInfinity = NegInfinity"
| "Math_min PosInfinity b = b"
| "Math_min a PosInfinity = a"
| "Math_min (Num p) (Num q) = Num (min p q)"

fun Math_max :: "number \<Rightarrow> number \<Rightarrow> number" where
  "Math_max NaN b = NaN"
| "Math_max a NaN = NaN"
| "Math_max PosInfinity b = PosInfinity"
| "Math_max a PosInfinity = PosInfinity"
| "Math_max NegInfinity b = b"
| "Math_max a NegInfinity = a"
| "Math_max (Num p) (Num q) = Num (max p q)"

text \<open>The operators \<^verbatim>\<open>-\<close> and \<^verbatim>\<open>*\<close> on numbers.\<close>

fun minus_number :: "number \<Rightarrow> number \<Rightarrow> number" where
  "minus_number NaN b = NaN"
| "minus_number a NaN = NaN"
| "minus_number PosInfinity PosInfinity = NaN"
| "minus_number NegInfinity NegInfinity = NaN"
| "minus_number PosInfinity b = PosInfinity"
| "minus_number NegInfinity b = NegInfinity"
| "minus_number (Num p) PosInfinity = NegInfinity"
| "minus_number (Num p) NegInfinity = PosInfinity"
| "minus_number (Num p) (Num q) = Num (p - q)"

definition sign_inf :: "bool \<Rightarrow> number" where
  "sign_inf positive = (if positive then PosInfinity else NegInfinity)"

fun times_number :: "number \<Rightarrow> number \<Rightarrow> number" where
  "times_number NaN b = NaN"
| "times_number a NaN = NaN"
| "times_number (Num p) (Num q) = Num (p * q)"
| "times_number (Num p) PosInfinity = (if p = 0 then NaN else sign_inf (0 < p))"
| "times_number (Num p) NegInfinity = (if p = 0 then NaN else sign_inf (p < 0))"
| "times_number PosInfinity (Num q) = (if q = 0 then NaN else sign_inf (0 < q))"
| "times_number NegInfinity (Num q) = (if q = 0 then NaN else sign_inf (q < 0))"
| "times_number PosInfinity PosInfinity = PosInfinity"
| "times_number PosInfinity NegInfinity = NegInfinity"
| "times_number NegInfinity PosInfinity = NegInfinity"
| "times_number NegInfinity NegInfinity = PosInfinity"

text \<open>The comparison \<^verbatim>\<open><=\<close>: false as soon as one side is \<^verbatim>\<open>NaN\<close>.\<close>

fun le_number :: "number \<Rightarrow> number \<Rightarrow> bool" where
  "le_number NaN b = False"
| "le_number a NaN = False"
| "le_number NegInfinity b = True"
| "le_number a PosInfinity = True"
| "le_number PosInfinity b = False"
| "le_number a NegInfinity = False"
| "le_number (Num p) (Num q) = (p \<le> q)"

subsection \<open>Reading binary fields\<close>

text \<open>The four bytes at an offset as a little-endian unsigned integer.\<close>

definition uint32_le :: "buffer \<Rightarrow> nat \<Rightarrow> nat" where
  "uint32_le buffer offset =
     unat (buffer ! offset) + 256 * unat (buffer ! (offset + 1))
       + 65536 * unat (buffer ! (offset + 2)) + 16777216 * unat (buffer ! (offset + 3))"

text \<open>
  \<^verbatim>\<open>buffer.readUInt32LE(offset)\<close> and \<^verbatim>\<open>view.getUint32(offset, true)\<close>: both throw a
  \<^verbatim>\<open>RangeError\<close> unless the four bytes lie inside the buffer.
\<close>

definition readUInt32LE :: "buffer \<Rightarrow> nat \<Rightarrow> js_error + nat" where
  "readUInt32LE buffer offset =
     (if offset + 4 \<le> length buffer then Inr (uint32_le buffer offset) else Inl RangeError)"

definition getUint32 :: "buffer \<Rightarrow> nat \<Rightarrow> js_error + nat" where
  "getUint32 view byteOffset =
     (if byteOffset + 4 \<le> length view then Inr (uint32_le view byteOffset) else Inl RangeError)"

text \<open>
  The value of an IEEE-754 single: sign bit, eight exponent bits, 23 fraction bits.
  Every single is a double, so widening it is exact.
\<close>

definition float32_value :: "nat \<Rightarrow> number" where
  "float32_value bits =
     (let negative = (bits div 2 ^ 31 = 1);
          e = (bits div 2 ^ 23) mod 256;
          m = bits mod 2 ^ 23;
          sign = (if negative then - 1 else 1 :: rat)
      in if e = 255 then (if m = 0 then sign_inf (\<not> negative) else NaN)
         else if e = 0 then Num (sign * of_nat m / 2 ^ 149)
         else if 150 \<le> e then Num (sign * of_nat (2 ^ 23 + m) * 2 ^ (e - 150))
         else Num (sign * of_nat (2 ^ 23 + m) / 2 ^ (150 - e)))"

definition readFloatLE :: "buffer \<Rightarrow> nat \<Rightarrow> js_error + number" where
  "readFloatLE buffer offset =
     (if offset + 4 \<le> length buffer then Inr (float32_value (uint32_le buffer offset))
      else Inl RangeError)"

subsection \<open>\<^verbatim>\<open>parseFloat\<close>\<close>

text \<open>
  \<^verbatim>\<open>parseFloat\<close> skips leading white space and reads the longest prefix that is a
  decimal literal: an optional sign, then \<^verbatim>\<open>Infinity\<close>, or digits with an optional
  fraction, or a fraction alone, then an optional exponent. Without such a prefix the
  result is \<^verbatim>\<open>NaN\<close>.
\<close>

definition isDigit :: "nat \<Rightarrow> bool" where
  "isDigit c \<longleftrightarrow> 0x30 \<le> c \<and> c \<le> 0x39"

definition digitsValue :: "jsstring \<Rightarrow> nat" where
  "digitsValue ds = foldl (\<lambda>a c. 10 * a + (c - 0x30)) 0 ds"

definition pow10 :: "int \<Rightarrow> rat" where
  "pow10 e = (if 0 \<le> e then 10 ^ nat e else 1 / 10 ^ nat (- e))"

definition parseExponent :: "jsstring \<Rightarrow> int" where
  "parseExponent r =
     (case r of
        [] \<Rightarrow> 0
      | c # r1 \<Rightarrow>
          if c = 0x65 \<or> c = 0x45 then
            (case r1 of
               [] \<Rightarrow> 0
             | s # r2 \<Rightarrow>
                 if s = 0x2D then - int (digitsValue (takeWhile isDigit r2))
                 else if s = 0x2B then int (digitsValue (takeWhile isDigit r2))
                 else int (digitsValue (takeWhile isDigit r1)))
          else 0)"

definition parseFloat :: "jsstring \<Rightarrow> number" where
  "parseFloat s =
     (let t = dropWhile isWhiteSpace s;
          negative = (t \<noteq> [] \<and> hd t = 0x2D);
          u = (if t \<noteq> [] \<and> (hd t = 0x2D \<or> hd t = 0x2B) then tl t else t);
          ip = takeWhile isDigit u;
          r1 = dropWhile isDigit u;
          hasDot = (r1 \<noteq> [] \<and> hd r1 = 0x2E);
          fp = (if hasDot then takeWhile isDigit (tl r1) else []);
          r2 = (if hasDot then dropWhile isDigit (tl r1) else r1)
      in if startsWith u (lit ''Infinity'') then sign_inf (\<not> negative)
         else if ip = [] \<and> fp = [] then NaN
         else Num ((if negative then - 1 else 1)
                    * (of_nat (digitsValue (ip @ fp)) / 10 ^ length fp)
                    * pow10 (parseExponent r2)))"

subsection \<open>The geometry accumulator\<close>

type_synonym vertex = "number \<times> number \<times> number"

record BoundingBox =
  min_pt :: vertex
  max_pt :: vertex

record STLInfo =
  vertexCount :: number
  faceCount :: number
  boundingBox :: BoundingBox
  surfaceArea :: number
  volume :: number

text \<open>One pass of the loop body of \<^verbatim>\<open>calculateBoundingBox\<close>.\<close>

fun extend_box :: "vertex \<Rightarrow> BoundingBox \<Rightarrow> BoundingBox" where
  "extend_box (x, y, z) box =
     (case (min_pt box, max_pt box) of
        ((min0, min1, min2), (max0, max1, max2)) \<Rightarrow>
          \<lparr>min_pt = (Math_min min0 x, Math_min min1 y, Math_min min2 z),
           max_pt = (Math_max max0 x, Math_max max1 y, Math_max max2 z)\<rparr>)"

definition calculateBoundingBox :: "vertex list \<Rightarrow> BoundingBox" where
  "calculateBoundingBox vertices =
     (if length vertices = 0 then \<lparr>min_pt = (Num 0, Num 0, Num 0), max_pt = (Num 0, Num 0, Num 0)\<rparr>
      else fold extend_box vertices
             \<lparr>min_pt = (PosInfinity, PosInfinity, PosInfinity),
              max_pt = (NegInfinity, NegInfinity, NegInfinity)\<rparr>)"

definition estimateSurfaceArea :: "number \<Rightarrow> number" where
  "estimateSurfaceArea faceCount' = times_number faceCount' (Num (1 / 100))"

definition estimateVolume :: "BoundingBox \<Rightarrow> number" where
  "estimateVolume box =
     (case (min_pt box, max_pt box) of
        ((min0, min1, min2), (max0, max1, max2)) \<Rightarrow>
          (let width = minus_number max0 min0;
               height = minus_number max1 min1;
               depth = minus_number max2 min2
           in times_number (times_number (times_number width height) depth) (Num (3 / 10))))"

subsection \<open>The textual reader\<close>

text \<open>
  The loop over \<^verbatim>\<open>vertexLines\<close>: a line with at least four pieces appends one
  vertex, a shorter one is passed over.
\<close>

fun parseVertexLines :: "jsstring list \<Rightarrow> vertex list \<Rightarrow> vertex list" where
  "parseVertexLines [] vertices = vertices"
| "parseVertexLines (line # rest) vertices =
     (let parts = split_ws (trim line)
      in if 4 \<le> length parts then
           (let x = parseFloat (parts ! 1);
                y = parseFloat (parts ! 2);
                z = parseFloat (parts ! 3)
            in parseVertexLines rest (vertices @ [(x, y, z)]))
         else parseVertexLines rest vertices)"

definition vertexLines_of :: "buffer \<Rightarrow> jsstring list" where
  "vertexLines_of buffer =
     (let content = utf8_decode buffer;
          lines = split_on 0x0A content
      in filter (\<lambda>line. startsWith (trim line) (lit ''vertex'')) lines)"

definition parseAsciiSTL :: "buffer \<Rightarrow> STLInfo" where
  "parseAsciiSTL buffer =
     (let vertexLines = vertexLines_of buffer;
          faceCount' = Num (of_nat (length vertexLines) / 3);
          vertexCount' = times_number faceCount' (Num 3);
          vertices = parseVertexLines vertexLines [];
          boundingBox' = calculateBoundingBox vertices;
          surfaceArea' = estimateSurfaceArea faceCount';
          volume' = estimateVolume boundingBox'
      in \<lparr>vertexCount = vertexCount', faceCount = faceCount', boundingBox = boundingBox',
          surfaceArea = surfaceArea', volume = volume'\<rparr>)"

subsection \<open>The binary reader\<close>

text \<open>The three reads of one vertex; the first that throws ends them.\<close>

definition readVertex :: "buffer \<Rightarrow> nat \<Rightarrow> js_error + vertex" where
  "readVertex buffer vOffset =
     (case readFloatLE buffer vOffset of
        Inl e \<Rightarrow> Inl e
      | Inr x \<Rightarrow>
          (case readFloatLE buffer (vOffset + 4) of
             Inl e \<Rightarrow> Inl e
           | Inr y \<Rightarrow>
               (case readFloatLE buffer (vOffset + 8) of
                  Inl e \<Rightarrow> Inl e
                | Inr z \<Rightarrow> Inr (x, y, z))))"

text \<open>The inner loop \<^verbatim>\<open>for (let j = 0; j < 3; j++)\<close>.\<close>

function readTriangle :: "buffer \<Rightarrow> nat \<Rightarrow> nat \<Rightarrow> vertex list \<Rightarrow> js_error + vertex list" where
  "readTriangle buffer offset j vertices =
     (if j < 3 then
        (case readVertex buffer (offset + j * 12) of
           Inl e \<Rightarrow> Inl e
         | Inr v \<Rightarrow> readTriangle buffer offset (j + 1) (vertices @ [v]))
      else Inr vertices)"
  by pat_completeness auto
termination
  by (relation "measure (\<lambda>(buffer, offset, j, vertices). 3 - j)") auto

text \<open>The outer loop \<^verbatim>\<open>for (let i = 0; i < faceCount; i++)\<close>.\<close>

function readTriangles :: "buffer \<Rightarrow> nat \<Rightarrow> nat \<Rightarrow> vertex list \<Rightarrow> js_error + vertex list" where
  "readTriangles buffer faceCount' i vertices =
     (if i < faceCount' then
        (case readTriangle buffer (84 + i * 50 + 12) 0 vertices of
           Inl e \<Rightarrow> Inl e
         | Inr vertices' \<Rightarrow> readTriangles buffer faceCount' (i + 1) vertices')
      else Inr vertices)"
  by pat_completeness auto
termination
  by (relation "measure (\<lambda>(buffer, faceCount', i, vertices). faceCount' - i)") auto

declare readTriangle.simps [simp del] readTriangles.simps [simp del]

definition parseBinarySTL :: "buffer \<Rightarrow> js_error + STLInfo" where
  "parseBinarySTL buffer =
     (case readUInt32LE buffer 80 of
        Inl e \<Rightarrow> Inl e
      | Inr n \<Rightarrow>
          (let faceCount' = Num (of_nat n);
               vertexCount' = times_number faceCount' (Num 3)
           in case readTriangles buffer n 0 [] of
                Inl e \<Rightarrow> Inl e
              | Inr vertices \<Rightarrow>
                  (let boundingBox' = calculateBoundingBox vertices;
                       surfaceArea' = estimateSurfaceArea faceCount';
                       volume' = estimateVolume boundingBox'
                   in Inr \<lparr>vertexCount = vertexCount', faceCount = faceCount',
                           boundingBox = boundingBox', surfaceArea = surfaceArea',
                           volume = volume'\<rparr>)))"

subsection \<open>\<^verbatim>\<open>analyzeSTL\<close> and \<^verbatim>\<open>isValidSTL\<close>\<close>

text \<open>
  The body of the \<^verbatim>\<open>try\<close> block, then the \<^verbatim>\<open>catch\<close> that wraps whatever was thrown
  into a new error.
\<close>

definition analyzeSTL_try :: "buffer \<Rightarrow> js_error + STLInfo" where
  "analyzeSTL_try buffer =
     (let isAscii = isAsciiSTL buffer
      in if isAscii then Inr (parseAsciiSTL buffer) else parseBinarySTL buffer)"

definition analyzeSTL :: "buffer \<Rightarrow> js_error + STLInfo" where
  "analyzeSTL buffer =
     (case analyzeSTL_try buffer of Inl e \<Rightarrow> Inl (Failed e) | Inr info \<Rightarrow> Inr info)"

definition isValidSTL :: "buffer \<Rightarrow> bool" where
  "isValidSTL buffer = (case analyzeSTL buffer of Inl e \<Rightarrow> False | Inr info \<Rightarrow> True)"

subsection \<open>The client's \<^verbatim>\<open>validateSTLFile\<close>\<close>

text \<open>A \<^verbatim>\<open>File\<close>: its name and its bytes; \<^verbatim>\<open>file.size\<close> is the number of bytes.\<close>

record File =
  name :: jsstring
  content :: buffer

text \<open>
  An error message is one of the source's literals, or the text built in the \<^verbatim>\<open>catch\<close>
  block from the message of the error caught.
\<close>

datatype message = Message string | Failed_to_parse js_error

record client_STLInfo =
  c_vertexCount :: nat
  c_faceCount :: nat
  isValid :: bool
  errorMessage :: "message option"

definition rejected :: "message \<Rightarrow> client_STLInfo" where
  "rejected m = \<lparr>c_vertexCount = 0, c_faceCount = 0, isValid = False, errorMessage = Some m\<rparr>"

text \<open>The body of the \<^verbatim>\<open>try\<close> block.\<close>

definition validateSTLFile_try :: "File \<Rightarrow> js_error + client_STLInfo" where
  "validateSTLFile_try file =
     (let arrayBuffer = content file
      in case client_isAsciiSTL arrayBuffer of
           Inl e \<Rightarrow> Inl e
         | Inr isAscii \<Rightarrow>
             if isAscii then
               (case Uint8Array arrayBuffer 0 (min 1000 (length arrayBuffer)) of
                  Inl e \<Rightarrow> Inl e
                | Inr head \<Rightarrow>
                    (let text = TextDecoder_decode head
                     in if \<not> match_solid text then
                          Inr (rejected (Message ''Invalid ASCII STL file format''))
                        else
                          (let faceCount' = length arrayBuffer div 400;
                               vertexCount' = faceCount' * 3
                           in Inr \<lparr>c_vertexCount = vertexCount', c_faceCount = faceCount',
                                   isValid = True, errorMessage = None\<rparr>)))
             else
               (case getUint32 arrayBuffer 80 of
                  Inl e \<Rightarrow> Inl e
                | Inr faceCount' \<Rightarrow>
                    (let vertexCount' = faceCount' * 3;
                         expectedSize = 84 + faceCount' * 50
                     in if length arrayBuffer < expectedSize then
                          Inr (rejected (Message ''Binary STL file is corrupted or incomplete''))
                        else
                          Inr \<lparr>c_vertexCount = vertexCount', c_faceCount = faceCount',
                                isValid = True, errorMessage = None\<rparr>)))"

definition validateSTLFile :: "File \<Rightarrow> client_STLInfo" where
  "validateSTLFile file =
     (if \<not> endsWith (toLowerCase (name file)) (lit ''.stl'') then
        rejected (Message ''File must have .stl extension'')
      else if 100 * 1024 * 1024 < length (content file) then
        rejected (Message ''File is too large (max 100MB)'')
      else
        (case validateSTLFile_try file of
           Inl e \<Rightarrow> rejected (Failed_to_parse e)
         | Inr info \<Rightarrow> info))"

section \<open>Notions of the specification\<close>

subsection \<open>The estimates in the words of the specification\<close>

text \<open>Width times height times depth of a box, times the shape factor 0.3.\<close>

definition box_volume :: "BoundingBox \<Rightarrow> number" where
  "box_volume box =
     times_number
       (times_number
          (times_number (minus_number (fst (max_pt box)) (fst (min_pt box)))
             (minus_number (fst (snd (max_pt box))) (fst (snd (min_pt box)))))
          (minus_number (snd (snd (max_pt box))) (snd (snd (min_pt box)))))
       (Num (3 / 10))"

subsection \<open>The binary layout in the words of the specification\<close>

text \<open>
  Vertex \<open>k\<close> of the file (counted from 0, three per record) starts at offset
  \<open>84 + (k div 3) * 50 + 12 + (k mod 3) * 12\<close> and holds three little-endian singles.
\<close>

definition vertex_offset :: "nat \<Rightarrow> nat" where
  "vertex_offset k = 84 + (k div 3) * 50 + 12 + (k mod 3) * 12"

definition float_at :: "buffer \<Rightarrow> nat \<Rightarrow> number" where
  "float_at buffer offset = float32_value (uint32_le buffer offset)"

definition vertex_at :: "buffer \<Rightarrow> nat \<Rightarrow> vertex" where
  "vertex_at buffer k =
     (float_at buffer (vertex_offset k), float_at buffer (vertex_offset k + 4),
      float_at buffer (vertex_offset k + 8))"

definition decoded_vertices :: "buffer \<Rightarrow> nat \<Rightarrow> vertex list" where
  "decoded_vertices buffer n = map (vertex_at buffer) [0..<3 * n]"

text \<open>
  The minimum and the maximum of a list of numbers: an element of the list below (above)
  all the others and, as for \<^verbatim>\<open>Math.min\<close> and \<^verbatim>\<open>Math.max\<close>, \<^verbatim>\<open>NaN\<close> as soon as the list
  contains \<^verbatim>\<open>NaN\<close>.
\<close>

definition is_minimum :: "number \<Rightarrow> number list \<Rightarrow> bool" where
  "is_minimum m xs \<longleftrightarrow>
     (if NaN \<in> set xs then m = NaN else m \<in> set xs \<and> (\<forall>x\<in>set xs. le_number m x))"

definition is_maximum :: "number \<Rightarrow> number list \<Rightarrow> bool" where
  "is_maximum m xs \<longleftrightarrow>
     (if NaN \<in> set xs then m = NaN else m \<in> set xs \<and> (\<forall>x\<in>set xs. le_number x m))"

text \<open>A box is the componentwise minimum and maximum of a vertex list.\<close>

definition componentwise_bounds :: "BoundingBox \<Rightarrow> vertex list \<Rightarrow> bool" where
  "componentwise_bounds box vertices \<longleftrightarrow>
     is_minimum (fst (min_pt box)) (map fst vertices) \<and>
     is_minimum (fst (snd (min_pt box))) (map (\<lambda>v. fst (snd v)) vertices) \<and>
     is_minimum (snd (snd (min_pt box))) (map (\<lambda>v. snd (snd v)) vertices) \<and>
     is_maximum (fst (max_pt box)) (map fst vertices) \<and>
     is_maximum (fst (snd (max_pt box))) (map (\<lambda>v. fst (snd v)) vertices) \<and>
     is_maximum (snd (snd (max_pt box))) (map (\<lambda>v. snd (snd v)) vertices)"

definition zero_box :: BoundingBox where
  "zero_box = \<lparr>min_pt = (Num 0, Num 0, Num 0), max_pt = (Num 0, Num 0, Num 0)\<rparr>"

subsection \<open>The textual reader in pieces\<close>

text \<open>
  The pieces of a vertex line, the test of the loop body of \<^verbatim>\<open>parseAsciiSTL\<close>, and
  the vertex it pushes.
\<close>

definition parts_of :: "jsstring \<Rightarrow> jsstring list" where
  "parts_of line = split_ws (trim line)"

definition has_four_parts :: "jsstring \<Rightarrow> bool" where
  "has_four_parts line \<longleftrightarrow> 4 \<le> length (parts_of line)"

definition vertex_of_line :: "jsstring \<Rightarrow> vertex" where
  "vertex_of_line line =
     (parseFloat (parts_of line ! 1), parseFloat (parts_of line ! 2),
      parseFloat (parts_of line ! 3))"

section \<open>Sample inputs\<close>

text \<open>An empty binary mesh (80 header bytes and the count 0) under a name without the extension.\<close>

definition wrong_extension_file :: File where
  "wrong_extension_file = \<lparr>name = lit ''model.txt'', content = replicate 84 0\<rparr>"

text \<open>A textual or binary file given by its characters.\<close>

definition bytes_of :: "string \<Rightarrow> buffer" where
  "bytes_of s = map of_char s"

text \<open>
  The two-facet binary mesh of the specification: 80 header bytes, the count 2, and two
  records of a normal, three vertices and two attribute bytes. \<open>f0\<close> and \<open>f1\<close> are
  the singles 0.0 and 1.0 in little-endian order.
\<close>

definition f0 :: buffer where
  "f0 = [0, 0, 0, 0]"

definition f1 :: buffer where
  "f1 = [0, 0, 0x80, 0x3F]"

definition two_facet_buffer :: buffer where
  "two_facet_buffer =
     replicate 80 0 @ [2, 0, 0, 0]
     @ replicate 12 0 @ (f0 @ f0 @ f0) @ (f1 @ f0 @ f0) @ (f0 @ f1 @ f0) @ [0, 0]
     @ replicate 12 0 @ (f0 @ f0 @ f1) @ (f1 @ f0 @ f1) @ (f0 @ f1 @ f1) @ [0, 0]"

definition accepted_file :: File where
  "accepted_file = \<lparr>name = lit ''part.STL'', content = two_facet_buffer\<rparr>"

text \<open>
  A binary mesh that declares one facet and stops after its third vertex: the two
  attribute bytes are missing, so it has 132 bytes instead of 134.
\<close>

definition truncated_buffer :: buffer where
  "truncated_buffer =
     replicate 80 0 @ [1, 0, 0, 0]
     @ replicate 12 0 @ (f0 @ f0 @ f0) @ (f1 @ f0 @ f0) @ (f0 @ f1 @ f0)"

text \<open>The five bytes \<^verbatim>\<open>solid\<close> and nothing else.\<close>

definition solid_bytes :: buffer where
  "solid_bytes = bytes_of ''solid''"


definition malformed_vertex_text :: buffer where
  "malformed_vertex_text = bytes_of ''solid a\<newline> vertex abc 1 2\<newline>''"

definition skipped_and_prefixed_text :: buffer where
  "skipped_and_prefixed_text =
     bytes_of ''solid a\<newline>vertex abc 1\<newline>vertex 12abc 0 0\<newline>''"


section \<open>Auxiliary facts\<close>

subsection \<open>Evaluation on concrete inputs\<close>

lemmas string_eval = lit_def toLowerCase_def lowerCodePoint_def endsWith_def startsWith_def
  trim_def isWhiteSpace_def

text \<open>Unfolding a run of equal bytes, for the evaluation of a sniffer on a sample.\<close>

lemma replicate_step: "0 < n \<Longrightarrow> replicate n x = x # replicate (n - 1) x"
  by (cases n) simp_all

lemmas binary_eval = readTriangle.simps readTriangles.simps readFloatLE_def uint32_le_def nth_append float32_value_def sign_inf_def
  readUInt32LE_def getUint32_def readVertex_def parseBinarySTL_def calculateBoundingBox_def
  estimateSurfaceArea_def estimateVolume_def

lemmas sniff_eval = isAsciiSTL_def client_isAsciiSTL_def Uint8Array_def TextDecoder_decode_def
  toString_utf8_def utf8_decode_def replicate_step

lemmas analyze_eval = analyzeSTL_def analyzeSTL_try_def

lemmas text_eval = bytes_of_def utf8_decode_def vertexLines_of_def parts_of_def has_four_parts_def

lemmas parse_eval = parseFloat_def parseExponent_def digitsValue_def pow10_def isDigit_def
  sign_inf_def Let_def

subsection \<open>The shape of the results\<close>

lemma rejected_simps:
  "isValid (rejected m) = False" "c_faceCount (rejected m) = 0"
  "c_vertexCount (rejected m) = 0" "errorMessage (rejected m) = Some m"
  by (simp_all add: rejected_def)

lemma validateSTLFile_try_cases:
  assumes "validateSTLFile_try f = Inr info"
  shows "(\<exists>m. info = rejected m) \<or>
         (isValid info \<and> errorMessage info = None \<and> c_vertexCount info = 3 * c_faceCount info)"
  using assms
  by (auto simp: validateSTLFile_try_def Let_def split: sum.splits if_splits)

lemma validateSTLFile_cases:
  "(\<exists>m. validateSTLFile f = rejected m) \<or>
   (isValid (validateSTLFile f) \<and> errorMessage (validateSTLFile f) = None \<and>
    c_vertexCount (validateSTLFile f) = 3 * c_faceCount (validateSTLFile f))"
  using validateSTLFile_try_cases [of f]
  by (auto simp: validateSTLFile_def split: sum.splits)

lemma analyzeSTL_Inr_cases:
  assumes "analyzeSTL buffer = Inr info"
  shows "(isAsciiSTL buffer \<and> info = parseAsciiSTL buffer) \<or>
         (\<not> isAsciiSTL buffer \<and> parseBinarySTL buffer = Inr info)"
  using assms by (auto simp: analyzeSTL_def analyzeSTL_try_def split: sum.splits if_splits)

lemma parseBinarySTL_Inr_fields:
  assumes "parseBinarySTL buffer = Inr info"
  shows "\<exists>n vertices. readUInt32LE buffer 80 = Inr n \<and> readTriangles buffer n 0 [] = Inr vertices \<and>
     faceCount info = Num (of_nat n) \<and> vertexCount info = Num (of_nat n * 3) \<and>
     boundingBox info = calculateBoundingBox vertices \<and>
     surfaceArea info = estimateSurfaceArea (Num (of_nat n)) \<and>
     volume info = estimateVolume (calculateBoundingBox vertices)"
  using assms by (auto simp: parseBinarySTL_def Let_def split: sum.splits)

lemma parseAsciiSTL_fields:
  "faceCount (parseAsciiSTL buffer) = Num (of_nat (length (vertexLines_of buffer)) / 3)"
  "vertexCount (parseAsciiSTL buffer) = Num (of_nat (length (vertexLines_of buffer)))"
  "boundingBox (parseAsciiSTL buffer) =
     calculateBoundingBox (parseVertexLines (vertexLines_of buffer) [])"
  "surfaceArea (parseAsciiSTL buffer) = estimateSurfaceArea (faceCount (parseAsciiSTL buffer))"
  "volume (parseAsciiSTL buffer) = estimateVolume (boundingBox (parseAsciiSTL buffer))"
  by (simp_all add: parseAsciiSTL_def Let_def)



lemma validateSTLFile_try_binary:
  assumes "client_isAsciiSTL (content f) = Inr False"
  shows "validateSTLFile_try f =
     (case getUint32 (content f) 80 of
        Inl e \<Rightarrow> Inl e
      | Inr n \<Rightarrow>
          if length (content f) < 84 + n * 50
          then Inr (rejected (Message ''Binary STL file is corrupted or incomplete''))
          else Inr \<lparr>c_vertexCount = n * 3, c_faceCount = n, isValid = True, errorMessage = None\<rparr>)"
  using assms by (simp add: validateSTLFile_try_def Let_def split: sum.splits)

lemma validateSTLFile_try_throws:
  assumes "client_isAsciiSTL (content f) = Inl e"
  shows "validateSTLFile_try f = Inl e"
  using assms by (simp add: validateSTLFile_try_def)

lemma estimateVolume_box_volume: "estimateVolume box = box_volume box"
  by (simp add: estimateVolume_def box_volume_def Let_def split: prod.splits)

lemma getUint32_readUInt32LE: "getUint32 buffer offset = readUInt32LE buffer offset"
  by (simp add: getUint32_def readUInt32LE_def)

subsection \<open>The binary reader reads exactly the declared records\<close>

lemma readVertex_Inr:
  "vOffset + 12 \<le> length buffer \<Longrightarrow>
   readVertex buffer vOffset =
     Inr (float_at buffer vOffset, float_at buffer (vOffset + 4), float_at buffer (vOffset + 8))"
  by (simp add: readVertex_def readFloatLE_def float_at_def)

lemma readVertex_Inl:
  "length buffer < vOffset + 12 \<Longrightarrow> readVertex buffer vOffset = Inl RangeError"
  by (simp add: readVertex_def readFloatLE_def)

lemma vertex_offset_simps:
  "vertex_offset (3 * i) = 96 + i * 50"
  "vertex_offset (Suc (3 * i)) = 108 + i * 50"
  "vertex_offset (Suc (Suc (3 * i))) = 120 + i * 50"
proof -
  have "(3 * i) div 3 = i" "(3 * i) mod 3 = 0" by simp_all
  moreover have "Suc (3 * i) div 3 = i" "Suc (3 * i) mod 3 = 1" by presburger+
  moreover have "Suc (Suc (3 * i)) div 3 = i" "Suc (Suc (3 * i)) mod 3 = 2" by presburger+
  ultimately show "vertex_offset (3 * i) = 96 + i * 50"
    "vertex_offset (Suc (3 * i)) = 108 + i * 50"
    "vertex_offset (Suc (Suc (3 * i))) = 120 + i * 50"
    by (simp_all add: vertex_offset_def)
qed

lemma readTriangle_Inr:
  assumes "offset + 36 \<le> length buffer"
  shows "readTriangle buffer offset 0 vertices =
           Inr (vertices @
                [(float_at buffer offset, float_at buffer (offset + 4), float_at buffer (offset + 8)),
                 (float_at buffer (offset + 12), float_at buffer (offset + 16), float_at buffer (offset + 20)),
                 (float_at buffer (offset + 24), float_at buffer (offset + 28), float_at buffer (offset + 32))])"
  using assms
  apply (subst readTriangle.simps, simp add: readVertex_Inr)
  apply (subst readTriangle.simps, simp add: readVertex_Inr)
  apply (subst readTriangle.simps, simp add: readVertex_Inr)
  apply (subst readTriangle.simps, simp add: add.commute)
  done

lemma readTriangle_Inl:
  assumes "length buffer < offset + 36"
  shows "readTriangle buffer offset 0 vertices = Inl RangeError"
proof (cases "offset + 12 \<le> length buffer")
  case False
  then show ?thesis
    by (subst readTriangle.simps) (simp add: readVertex_Inl)
next
  case True
  note a = this
  show ?thesis
  proof (cases "offset + 24 \<le> length buffer")
    case False
    with a show ?thesis
      apply (subst readTriangle.simps, simp add: readVertex_Inr)
      apply (subst readTriangle.simps, simp add: readVertex_Inl)
      done
  next
    case True
    with a assms show ?thesis
      apply (subst readTriangle.simps, simp add: readVertex_Inr)
      apply (subst readTriangle.simps, simp add: readVertex_Inr)
      apply (subst readTriangle.simps, simp add: readVertex_Inl)
      done
  qed
qed

lemma triangle_vertices:
  "map (vertex_at buffer) [3 * i..<3 * i + 3] =
     [(float_at buffer (96 + i * 50), float_at buffer (96 + i * 50 + 4), float_at buffer (96 + i * 50 + 8)),
      (float_at buffer (96 + i * 50 + 12), float_at buffer (96 + i * 50 + 16), float_at buffer (96 + i * 50 + 20)),
      (float_at buffer (96 + i * 50 + 24), float_at buffer (96 + i * 50 + 28), float_at buffer (96 + i * 50 + 32))]"
proof -
  have u: "[3 * i..<3 * i + 3] = [3 * i, Suc (3 * i), Suc (Suc (3 * i))]"
    by (simp add: upt_rec [of "3 * i"] upt_rec [of "Suc (3 * i)"] upt_rec [of "Suc (Suc (3 * i))"])
  show ?thesis
    by (simp add: u vertex_at_def vertex_offset_simps)
qed

lemma upt_triangle_split:
  assumes "i < n"
  shows "[3 * i..<3 * n] = [3 * i..<3 * i + 3] @ [3 * (i + 1)..<3 * n]"
proof -
  have "3 * i + 3 + (3 * n - (3 * i + 3)) = 3 * n"
    using assms by simp
  then show ?thesis
    using upt_add_eq_append [of "3 * i" "3 * i + 3" "3 * n - (3 * i + 3)"]
    by (simp add: add.commute)
qed

lemma readTriangles_unfold:
  "i < n \<Longrightarrow>
   readTriangles buffer n i vertices =
     (case readTriangle buffer (84 + i * 50 + 12) 0 vertices of
        Inl e \<Rightarrow> Inl e
      | Inr vertices' \<Rightarrow> readTriangles buffer n (i + 1) vertices')"
  by (subst readTriangles.simps) (simp only: if_True)

lemma readTriangles_done:
  "\<not> i < n \<Longrightarrow> readTriangles buffer n i vertices = Inr vertices"
  by (subst readTriangles.simps) (simp only: if_False)

lemma readTriangles_Inr:
  assumes "i \<le> n" and "n = 0 \<or> 84 + n * 50 \<le> length buffer + 2"
  shows "readTriangles buffer n i vertices =
           Inr (vertices @ map (vertex_at buffer) [3 * i..<3 * n])"
  using assms
proof (induction buffer n i vertices rule: readTriangles.induct)
  case (1 buffer n i vertices)
  show ?case
  proof (cases "i < n")
    case False
    with "1.prems" show ?thesis
      by (simp add: readTriangles_done)
  next
    case True
    then have fit: "(84 + i * 50 + 12) + 36 \<le> length buffer"
      using "1.prems" by auto
    have step: "readTriangle buffer (84 + i * 50 + 12) 0 vertices =
                  Inr (vertices @ map (vertex_at buffer) [3 * i..<3 * i + 3])"
      using readTriangle_Inr [OF fit, of vertices] by (simp add: triangle_vertices)
    have "readTriangles buffer n i vertices =
            readTriangles buffer n (i + 1) (vertices @ map (vertex_at buffer) [3 * i..<3 * i + 3])"
      by (simp only: readTriangles_unfold [OF True] step sum.case)
    also have "\<dots> = Inr ((vertices @ map (vertex_at buffer) [3 * i..<3 * i + 3])
                        @ map (vertex_at buffer) [3 * (i + 1)..<3 * n])"
      using "1.IH" [OF True step] True "1.prems" by simp
    also have "\<dots> = Inr (vertices @ map (vertex_at buffer) [3 * i..<3 * n])"
      by (simp add: upt_triangle_split [OF True])
    finally show ?thesis .
  qed
qed

lemma readTriangles_Inl:
  assumes "i < n" and "length buffer + 2 < 84 + n * 50"
  shows "readTriangles buffer n i vertices = Inl RangeError"
  using assms
proof (induction buffer n i vertices rule: readTriangles.induct)
  case (1 buffer n i vertices)
  note less = "1.prems"(1)
  show ?case
  proof (cases "(84 + i * 50 + 12) + 36 \<le> length buffer")
    case False
    then have "readTriangle buffer (84 + i * 50 + 12) 0 vertices = Inl RangeError"
      by (intro readTriangle_Inl) simp
    then show ?thesis
      by (simp only: readTriangles_unfold [OF less] sum.case)
  next
    case True
    then have next_less: "i + 1 < n"
      using "1.prems" by (cases "i + 1 = n") auto
    note step = readTriangle_Inr [OF True, of vertices]
    have "readTriangles buffer n i vertices = readTriangles buffer n (i + 1)
            (vertices @
                [(float_at buffer (84 + i * 50 + 12), float_at buffer (84 + i * 50 + 12 + 4), float_at buffer (84 + i * 50 + 12 + 8)),
                 (float_at buffer (84 + i * 50 + 12 + 12), float_at buffer (84 + i * 50 + 12 + 16), float_at buffer (84 + i * 50 + 12 + 20)),
                 (float_at buffer (84 + i * 50 + 12 + 24), float_at buffer (84 + i * 50 + 12 + 28), float_at buffer (84 + i * 50 + 12 + 32))])"
      by (simp only: readTriangles_unfold [OF less] step sum.case)
    also have "\<dots> = Inl RangeError"
      by (rule "1.IH" [OF less step next_less "1.prems"(2)])
    finally show ?thesis .
  qed
qed

lemma parseBinarySTL_Inr:
  assumes "readUInt32LE buffer 80 = Inr n" and "n = 0 \<or> 84 + n * 50 \<le> length buffer + 2"
  shows "parseBinarySTL buffer =
     Inr \<lparr>vertexCount = Num (of_nat n * 3), faceCount = Num (of_nat n),
          boundingBox = calculateBoundingBox (decoded_vertices buffer n),
          surfaceArea = estimateSurfaceArea (Num (of_nat n)),
          volume = estimateVolume (calculateBoundingBox (decoded_vertices buffer n))\<rparr>"
  using assms readTriangles_Inr [of 0 n buffer "[]"]
  by (simp add: parseBinarySTL_def Let_def decoded_vertices_def)

subsection \<open>The two sniffers\<close>

lemma trim_BOM: "trim (0xFEFF # s) = trim s"
  by (simp add: trim_def isWhiteSpace_def)

lemma utf8_decode_BOM:
  "utf8_decode (0xEF # 0xBB # 0xBF # bs) = 0xFEFF # utf8_decode bs"
  by (simp add: utf8_decode_def)

lemma trim_TextDecoder_decode: "trim (TextDecoder_decode bs) = trim (utf8_decode bs)"
proof (cases "take 3 bs = [0xEF, 0xBB, 0xBF]")
  case False
  then show ?thesis by (simp add: TextDecoder_decode_def)
next
  case True
  then have "bs = 0xEF # 0xBB # 0xBF # drop 3 bs"
    by (metis append_take_drop_id append_Cons append_Nil)
  then have "utf8_decode bs = 0xFEFF # utf8_decode (drop 3 bs)"
    using utf8_decode_BOM [of "drop 3 bs"] by simp
  with True show ?thesis
    by (simp add: TextDecoder_decode_def trim_BOM)
qed

lemma client_isAsciiSTL_Inr:
  "6 \<le> length buffer \<Longrightarrow> client_isAsciiSTL buffer = Inr (isAsciiSTL buffer)"
  by (simp add: client_isAsciiSTL_def Uint8Array_def isAsciiSTL_def toString_utf8_def
      trim_TextDecoder_decode Let_def)

lemma client_isAsciiSTL_Inl:
  "length buffer < 6 \<Longrightarrow> client_isAsciiSTL buffer = Inl RangeError"
  by (simp add: client_isAsciiSTL_def Uint8Array_def)

lemma client_isAsciiSTL_agrees:
  "client_isAsciiSTL buffer = Inr b \<Longrightarrow> isAsciiSTL buffer = b"
  using client_isAsciiSTL_Inr [of buffer] client_isAsciiSTL_Inl [of buffer]
  by (cases "6 \<le> length buffer") auto

subsection \<open>When the server accepts\<close>

lemma isValidSTL_textual: "isAsciiSTL buffer \<Longrightarrow> isValidSTL buffer"
  by (simp add: isValidSTL_def analyzeSTL_def analyzeSTL_try_def)

lemma isValidSTL_binary:
  assumes "\<not> isAsciiSTL buffer"
  shows "isValidSTL buffer \<longleftrightarrow>
     (\<exists>n. readUInt32LE buffer 80 = Inr n \<and> (n = 0 \<or> 84 + n * 50 \<le> length buffer + 2))"
proof (cases "readUInt32LE buffer 80")
  case (Inl e)
  then show ?thesis
    using assms by (simp add: isValidSTL_def analyzeSTL_def analyzeSTL_try_def parseBinarySTL_def)
next
  case (Inr n)
  show ?thesis
  proof (cases "n = 0 \<or> 84 + n * 50 \<le> length buffer + 2")
    case True
    then show ?thesis
      using assms Inr parseBinarySTL_Inr [OF Inr True]
      by (simp add: isValidSTL_def analyzeSTL_def analyzeSTL_try_def)
  next
    case False
    then have "readTriangles buffer n 0 [] = Inl RangeError"
      by (intro readTriangles_Inl) auto
    then show ?thesis
      using assms Inr False
      by (simp add: isValidSTL_def analyzeSTL_def analyzeSTL_try_def parseBinarySTL_def)
  qed
qed

subsection \<open>The running minimum and maximum\<close>

lemma Math_min_NaN [simp]: "Math_min a NaN = NaN"
  by (cases a) simp_all

lemma Math_max_NaN [simp]: "Math_max a NaN = NaN"
  by (cases a) simp_all

lemma times_number_NaN [simp]: "times_number a NaN = NaN"
  by (cases a) simp_all

lemma minus_number_NaN [simp]: "minus_number a NaN = NaN"
  by (cases a) simp_all

lemma Math_min_props:
  assumes "a \<noteq> NaN" and "x \<noteq> NaN"
  shows "Math_min a x \<noteq> NaN" and "Math_min a x = a \<or> Math_min a x = x"
    and "le_number (Math_min a x) a" and "le_number (Math_min a x) x"
  using assms by (cases a; cases x; simp add: min_def)+

lemma Math_max_props:
  assumes "a \<noteq> NaN" and "x \<noteq> NaN"
  shows "Math_max a x \<noteq> NaN" and "Math_max a x = a \<or> Math_max a x = x"
    and "le_number a (Math_max a x)" and "le_number x (Math_max a x)"
  using assms by (cases a; cases x; simp add: max_def)+

lemma le_number_trans: "le_number a b \<Longrightarrow> le_number b c \<Longrightarrow> le_number a c"
  by (cases a; cases b; cases c; simp)

lemma le_number_PosInfinity: "le_number PosInfinity x \<Longrightarrow> x = PosInfinity"
  by (cases x) simp_all

lemma le_number_NegInfinity: "le_number x NegInfinity \<Longrightarrow> x = NegInfinity"
  by (cases x) simp_all

lemma fold_min_NaN: "fold (\<lambda>x a. Math_min a x) xs NaN = NaN"
  by (induction xs) simp_all

lemma fold_max_NaN: "fold (\<lambda>x a. Math_max a x) xs NaN = NaN"
  by (induction xs) simp_all

lemma fold_min_has_NaN: "NaN \<in> set xs \<Longrightarrow> fold (\<lambda>x a. Math_min a x) xs a = NaN"
  by (induction xs arbitrary: a) (auto simp: fold_min_NaN)

lemma fold_max_has_NaN: "NaN \<in> set xs \<Longrightarrow> fold (\<lambda>x a. Math_max a x) xs a = NaN"
  by (induction xs arbitrary: a) (auto simp: fold_max_NaN)

lemma fold_min_least:
  assumes "NaN \<notin> set xs" and "a \<noteq> NaN"
  shows "fold (\<lambda>x a. Math_min a x) xs a \<in> set (a # xs) \<and>
         (\<forall>y\<in>set (a # xs). le_number (fold (\<lambda>x a. Math_min a x) xs a) y)"
  using assms
proof (induction xs arbitrary: a)
  case Nil
  then show ?case by (cases a) simp_all
next
  case (Cons x xs)
  let ?b = "Math_min a x"
  let ?r = "fold (\<lambda>x a. Math_min a x) xs ?b"
  have x: "x \<noteq> NaN" and xs: "NaN \<notin> set xs"
    using Cons.prems(1) by auto
  note b = Math_min_props [OF Cons.prems(2) x]
  from Cons.IH [OF xs b(1)]
  have mem: "?r \<in> set (?b # xs)" and low: "\<forall>y\<in>set (?b # xs). le_number ?r y"
    by blast+
  from low have rb: "le_number ?r ?b" by simp
  have "?r \<in> set (a # x # xs)"
    using mem b(2) by auto
  moreover have "le_number ?r a" "le_number ?r x"
    using rb b(3,4) le_number_trans by blast+
  moreover have "\<forall>y\<in>set xs. le_number ?r y"
    using low by simp
  ultimately show ?case by simp
qed

lemma fold_max_greatest:
  assumes "NaN \<notin> set xs" and "a \<noteq> NaN"
  shows "fold (\<lambda>x a. Math_max a x) xs a \<in> set (a # xs) \<and>
         (\<forall>y\<in>set (a # xs). le_number y (fold (\<lambda>x a. Math_max a x) xs a))"
  using assms
proof (induction xs arbitrary: a)
  case Nil
  then show ?case by (cases a) simp_all
next
  case (Cons x xs)
  let ?b = "Math_max a x"
  let ?r = "fold (\<lambda>x a. Math_max a x) xs ?b"
  have x: "x \<noteq> NaN" and xs: "NaN \<notin> set xs"
    using Cons.prems(1) by auto
  note b = Math_max_props [OF Cons.prems(2) x]
  from Cons.IH [OF xs b(1)]
  have mem: "?r \<in> set (?b # xs)" and high: "\<forall>y\<in>set (?b # xs). le_number y ?r"
    by blast+
  from high have rb: "le_number ?b ?r" by simp
  have "?r \<in> set (a # x # xs)"
    using mem b(2) by auto
  moreover have "le_number a ?r" "le_number x ?r"
    using rb b(3,4) le_number_trans by blast+
  moreover have "\<forall>y\<in>set xs. le_number y ?r"
    using high by simp
  ultimately show ?case by simp
qed

lemma is_minimum_fold:
  assumes "xs \<noteq> []"
  shows "is_minimum (fold (\<lambda>x a. Math_min a x) xs PosInfinity) xs"
proof (cases "NaN \<in> set xs")
  case True
  then show ?thesis by (simp add: is_minimum_def fold_min_has_NaN)
next
  case False
  let ?r = "fold (\<lambda>x a. Math_min a x) xs PosInfinity"
  from fold_min_least [OF False, of PosInfinity]
  have mem: "?r \<in> set (PosInfinity # xs)" and low: "\<forall>y\<in>set xs. le_number ?r y"
    by simp_all
  have "?r \<in> set xs"
  proof (cases "?r = PosInfinity")
    case False
    with mem show ?thesis by simp
  next
    case True
    from assms obtain y where y: "y \<in> set xs" by (cases xs) auto
    with low True have "y = PosInfinity"
      by (simp add: le_number_PosInfinity)
    with y True show ?thesis by simp
  qed
  with low False show ?thesis by (simp add: is_minimum_def)
qed

lemma is_maximum_fold:
  assumes "xs \<noteq> []"
  shows "is_maximum (fold (\<lambda>x a. Math_max a x) xs NegInfinity) xs"
proof (cases "NaN \<in> set xs")
  case True
  then show ?thesis by (simp add: is_maximum_def fold_max_has_NaN)
next
  case False
  let ?r = "fold (\<lambda>x a. Math_max a x) xs NegInfinity"
  from fold_max_greatest [OF False, of NegInfinity]
  have mem: "?r \<in> set (NegInfinity # xs)" and high: "\<forall>y\<in>set xs. le_number y ?r"
    by simp_all
  have "?r \<in> set xs"
  proof (cases "?r = NegInfinity")
    case False
    with mem show ?thesis by simp
  next
    case True
    from assms obtain y where y: "y \<in> set xs" by (cases xs) auto
    with high True have "y = NegInfinity"
      by (simp add: le_number_NegInfinity)
    with y True show ?thesis by simp
  qed
  with high False show ?thesis by (simp add: is_maximum_def)
qed

lemma min_pt_extend_box:
  "min_pt (extend_box v box) =
     (Math_min (fst (min_pt box)) (fst v), Math_min (fst (snd (min_pt box))) (fst (snd v)),
      Math_min (snd (snd (min_pt box))) (snd (snd v)))"
  by (cases v) (simp split: prod.splits)

lemma max_pt_extend_box:
  "max_pt (extend_box v box) =
     (Math_max (fst (max_pt box)) (fst v), Math_max (fst (snd (max_pt box))) (fst (snd v)),
      Math_max (snd (snd (max_pt box))) (snd (snd v)))"
  by (cases v) (simp split: prod.splits)

lemma min_pt_fold_extend_box:
  "min_pt (fold extend_box vs box) =
     (fold (\<lambda>x a. Math_min a x) (map fst vs) (fst (min_pt box)),
      fold (\<lambda>x a. Math_min a x) (map (\<lambda>v. fst (snd v)) vs) (fst (snd (min_pt box))),
      fold (\<lambda>x a. Math_min a x) (map (\<lambda>v. snd (snd v)) vs) (snd (snd (min_pt box))))"
  by (induction vs arbitrary: box) (simp_all add: min_pt_extend_box)

lemma max_pt_fold_extend_box:
  "max_pt (fold extend_box vs box) =
     (fold (\<lambda>x a. Math_max a x) (map fst vs) (fst (max_pt box)),
      fold (\<lambda>x a. Math_max a x) (map (\<lambda>v. fst (snd v)) vs) (fst (snd (max_pt box))),
      fold (\<lambda>x a. Math_max a x) (map (\<lambda>v. snd (snd v)) vs) (snd (snd (max_pt box))))"
  by (induction vs arbitrary: box) (simp_all add: max_pt_extend_box)

lemma calculateBoundingBox_Nil: "calculateBoundingBox [] = zero_box"
  by (simp add: calculateBoundingBox_def zero_box_def)

lemma calculateBoundingBox_bounds:
  assumes "vertices \<noteq> []"
  shows "componentwise_bounds (calculateBoundingBox vertices) vertices"
  using assms
  by (simp add: calculateBoundingBox_def componentwise_bounds_def min_pt_fold_extend_box
      max_pt_fold_extend_box is_minimum_fold is_maximum_fold)

lemma calculateBoundingBox_NaN:
  assumes "v \<in> set vertices"
  shows "fst v = NaN \<longrightarrow>
           fst (min_pt (calculateBoundingBox vertices)) = NaN \<and>
           fst (max_pt (calculateBoundingBox vertices)) = NaN"
    and "fst (snd v) = NaN \<longrightarrow>
           fst (snd (min_pt (calculateBoundingBox vertices))) = NaN \<and>
           fst (snd (max_pt (calculateBoundingBox vertices))) = NaN"
    and "snd (snd v) = NaN \<longrightarrow>
           snd (snd (min_pt (calculateBoundingBox vertices))) = NaN \<and>
           snd (snd (max_pt (calculateBoundingBox vertices))) = NaN"
proof -
  have ne: "vertices \<noteq> []"
    using assms by auto
  have "NaN \<in> set (map f vertices)" if "f v = NaN" for f :: "vertex \<Rightarrow> number"
    using assms that by force
  then show "fst v = NaN \<longrightarrow>
           fst (min_pt (calculateBoundingBox vertices)) = NaN \<and>
           fst (max_pt (calculateBoundingBox vertices)) = NaN"
    and "fst (snd v) = NaN \<longrightarrow>
           fst (snd (min_pt (calculateBoundingBox vertices))) = NaN \<and>
           fst (snd (max_pt (calculateBoundingBox vertices))) = NaN"
    and "snd (snd v) = NaN \<longrightarrow>
           snd (snd (min_pt (calculateBoundingBox vertices))) = NaN \<and>
           snd (snd (max_pt (calculateBoundingBox vertices))) = NaN"
    using ne
    by (simp_all add: calculateBoundingBox_def min_pt_fold_extend_box max_pt_fold_extend_box
        fold_min_has_NaN fold_max_has_NaN)
qed

subsection \<open>The textual reader\<close>

lemma parseVertexLines_map_filter:
  "parseVertexLines ls vertices = vertices @ map vertex_of_line (filter has_four_parts ls)"
  by (induction ls arbitrary: vertices)
    (simp_all add: Let_def has_four_parts_def vertex_of_line_def parts_of_def)

subsection \<open>The sample inputs evaluated\<close>

lemma length_two_facet_buffer: "length two_facet_buffer = 184"
  by (simp add: two_facet_buffer_def f0_def f1_def)

lemma sniff_two_facet_buffer:
  "\<not> isAsciiSTL two_facet_buffer" "client_isAsciiSTL two_facet_buffer = Inr False"
  by (simp_all add: sniff_eval string_eval two_facet_buffer_def)

lemma parseBinarySTL_two_facet_buffer:
  "parseBinarySTL two_facet_buffer =
     Inr \<lparr>vertexCount = Num 6, faceCount = Num 2,
          boundingBox = \<lparr>min_pt = (Num 0, Num 0, Num 0), max_pt = (Num 1, Num 1, Num 1)\<rparr>,
          surfaceArea = Num (2 / 100), volume = Num (3 / 10)\<rparr>"
  by (simp add: binary_eval two_facet_buffer_def f0_def f1_def)

lemma analyzeSTL_two_facet_buffer:
  "analyzeSTL two_facet_buffer =
     Inr \<lparr>vertexCount = Num 6, faceCount = Num 2,
          boundingBox = \<lparr>min_pt = (Num 0, Num 0, Num 0), max_pt = (Num 1, Num 1, Num 1)\<rparr>,
          surfaceArea = Num (2 / 100), volume = Num (3 / 10)\<rparr>"
  by (simp add: analyze_eval sniff_two_facet_buffer parseBinarySTL_two_facet_buffer)

lemma getUint32_two_facet_buffer: "getUint32 two_facet_buffer 80 = Inr 2"
  by (simp add: binary_eval two_facet_buffer_def)

lemma readUInt32LE_two_facet_buffer: "readUInt32LE two_facet_buffer 80 = Inr 2"
  by (simp add: binary_eval two_facet_buffer_def)

lemma name_accepted_file: "endsWith (toLowerCase (name accepted_file)) (lit ''.stl'')"
  by (simp add: accepted_file_def string_eval)

lemma validateSTLFile_accepted_file:
  "validateSTLFile accepted_file =
     \<lparr>c_vertexCount = 6, c_faceCount = 2, isValid = True, errorMessage = None\<rparr>"
  using name_accepted_file
  by (simp add: validateSTLFile_def validateSTLFile_try_def 
      sniff_two_facet_buffer getUint32_two_facet_buffer length_two_facet_buffer)
    (simp add: accepted_file_def sniff_two_facet_buffer getUint32_two_facet_buffer length_two_facet_buffer)





lemma vertexLines_of_malformed_vertex_text:
  "vertexLines_of malformed_vertex_text = [lit '' vertex abc 1 2'']"
  by (simp add: malformed_vertex_text_def text_eval string_eval)

lemma parts_of_malformed_line:
  "parts_of (lit '' vertex abc 1 2'') = [lit ''vertex'', lit ''abc'', lit ''1'', lit ''2'']"
  by (simp add: text_eval string_eval)

lemma vertexLines_of_skipped_and_prefixed_text:
  "vertexLines_of skipped_and_prefixed_text = [lit ''vertex abc 1'', lit ''vertex 12abc 0 0'']"
  by (simp add: skipped_and_prefixed_text_def text_eval string_eval)

lemma parts_of_skipped_line:
  "parts_of (lit ''vertex abc 1'') = [lit ''vertex'', lit ''abc'', lit ''1'']"
  by (simp add: text_eval string_eval)

lemma parts_of_prefixed_line:
  "parts_of (lit ''vertex 12abc 0 0'') = [lit ''vertex'', lit ''12abc'', lit ''0'', lit ''0'']"
  by (simp add: text_eval string_eval)

lemma parseFloat_samples:
  "parseFloat (lit ''abc'') = NaN" "parseFloat (lit ''12abc'') = Num 12"
  "parseFloat (lit ''0'') = Num 0" "parseFloat (lit ''1'') = Num 1"
  "parseFloat (lit ''2'') = Num 2"
  by (simp_all add: parse_eval string_eval)

section \<open>The claims\<close>

subsection \<open>The client against the server\<close>

text \<open>
  Claim C1 asks the client's \<^verbatim>\<open>validateSTLFile\<close> and the server's \<^verbatim>\<open>isValidSTL\<close> to take
  the same decision on every file name and buffer. The server decides on the bytes
  alone, and the client has guards that the server has not. What holds is one direction:
  whatever the client accepts, the server accepts.
\<close>

theorem C1_client_accepts_then_server_accepts:
  "isValid (validateSTLFile f) \<Longrightarrow> isValidSTL (content f)"
proof -
  assume v: "isValid (validateSTLFile f)"
  show ?thesis
  proof (cases "client_isAsciiSTL (content f)")
    case (Inl e)
    with v show ?thesis
      by (simp add: validateSTLFile_def validateSTLFile_try_throws rejected_simps split: if_splits)
  next
    case (Inr isAscii)
    then have sniff: "isAsciiSTL (content f) = isAscii"
      by (rule client_isAsciiSTL_agrees)
    show ?thesis
    proof (cases isAscii)
      case True
      with sniff show ?thesis by (simp add: isValidSTL_textual)
    next
      case False
      with Inr have b: "client_isAsciiSTL (content f) = Inr False" by simp
      from v have "\<exists>n. getUint32 (content f) 80 = Inr n \<and> 84 + n * 50 \<le> length (content f)"
        by (cases "getUint32 (content f) 80")
          (simp_all add: validateSTLFile_def validateSTLFile_try_binary [OF b] rejected_simps
            split: if_splits)
      then show ?thesis
        using False sniff by (auto simp: isValidSTL_binary getUint32_readUInt32LE)
    qed
  qed
qed

text \<open>
  The two decisions differ on the empty binary mesh named \<^verbatim>\<open>model.txt\<close>: the client
  rejects the name, the server accepts the bytes.
\<close>

theorem C1_counterexample:
  "isValid (validateSTLFile wrong_extension_file) = False \<and>
   isValidSTL (content wrong_extension_file) = True"
proof -
  have "\<not> isValid (validateSTLFile wrong_extension_file)"
    by (simp add: validateSTLFile_def wrong_extension_file_def string_eval rejected_simps)
  moreover have "\<not> isAsciiSTL (content wrong_extension_file)"
    by (simp add: wrong_extension_file_def sniff_eval string_eval)
  moreover have "readUInt32LE (content wrong_extension_file) 80 = Inr 0"
    by (simp add: wrong_extension_file_def binary_eval)
  ultimately show ?thesis
    by (simp add: isValidSTL_binary)
qed

theorem C1_witness: "isValidSTL (content accepted_file)"
proof -
  have "isValid (validateSTLFile accepted_file)"
    by (simp add: validateSTLFile_accepted_file)
  then show ?thesis
    by (rule C1_client_accepts_then_server_accepts)
qed

subsection \<open>A truncated binary buffer\<close>

text \<open>
  Claim C2 asks that a binary buffer shorter than 84 + N * 50 bytes makes the analysis
  fail. The reader has no such check: it fails only when one of its reads leaves the
  buffer, and the last read of a record ends two bytes before the record does. The
  132-byte buffer that declares one facet is binary, is shorter than 84 + 1 * 50, and is
  analysed to a complete record.
\<close>

theorem C2_truncated_accepted:
  "\<not> isAsciiSTL truncated_buffer \<and> readUInt32LE truncated_buffer 80 = Inr 1 \<and>
   length truncated_buffer = 132 \<and> length truncated_buffer < 84 + 1 * 50 \<and>
   analyzeSTL truncated_buffer =
     Inr \<lparr>vertexCount = Num 3, faceCount = Num 1,
          boundingBox = \<lparr>min_pt = (Num 0, Num 0, Num 0), max_pt = (Num 1, Num 1, Num 0)\<rparr>,
          surfaceArea = Num (1 / 100), volume = Num 0\<rparr>"
proof -
  have s: "\<not> isAsciiSTL truncated_buffer"
    by (simp add: sniff_eval string_eval truncated_buffer_def)
  have l: "length truncated_buffer = 132"
    by (simp add: truncated_buffer_def f0_def f1_def)
  have n: "readUInt32LE truncated_buffer 80 = Inr 1"
    by (simp add: binary_eval truncated_buffer_def)
  have p: "parseBinarySTL truncated_buffer =
     Inr \<lparr>vertexCount = Num 3, faceCount = Num 1,
          boundingBox = \<lparr>min_pt = (Num 0, Num 0, Num 0), max_pt = (Num 1, Num 1, Num 0)\<rparr>,
          surfaceArea = Num (1 / 100), volume = Num 0\<rparr>"
    by (simp add: binary_eval Let_def truncated_buffer_def f0_def f1_def)
  show ?thesis
    using s l n p by (simp add: analyze_eval)
qed

subsection \<open>Round trip over the binary layout\<close>

text \<open>
  Claim C3. For a buffer that is sniffed as binary, whose count at offset 80 is \<open>n\<close> and
  which has at least \<open>84 + n * 50\<close> bytes, \<^verbatim>\<open>analyzeSTL\<close> returns a record with the face
  count \<open>n\<close> whose bounding box is the componentwise minimum and maximum of the \<open>3 * n\<close>
  vertices decoded from the offsets \<open>84 + i * 50 + 12\<close> (twelve bytes per vertex, the
  normal and the attribute bytes ignored). For \<open>n = 0\<close>, and for every empty vertex
  list, the box is the zero box.
\<close>

theorem C3_binary_round_trip:
  assumes "\<not> isAsciiSTL buffer"
    and "readUInt32LE buffer 80 = Inr n"
    and "84 + n * 50 \<le> length buffer"
  shows "(\<exists>info. analyzeSTL buffer = Inr info \<and> faceCount info = Num (of_nat n) \<and>
            (if n = 0 then boundingBox info = zero_box
             else componentwise_bounds (boundingBox info) (decoded_vertices buffer n))) \<and>
         calculateBoundingBox [] = zero_box"
proof -
  let ?vs = "decoded_vertices buffer n"
  let ?info = "\<lparr>vertexCount = Num (of_nat n * 3), faceCount = Num (of_nat n),
          boundingBox = calculateBoundingBox ?vs,
          surfaceArea = estimateSurfaceArea (Num (of_nat n)),
          volume = estimateVolume (calculateBoundingBox ?vs)\<rparr>"
  have "parseBinarySTL buffer = Inr ?info"
    using assms(2,3) by (intro parseBinarySTL_Inr) simp_all
  then have a: "analyzeSTL buffer = Inr ?info"
    using assms(1) by (simp add: analyzeSTL_def analyzeSTL_try_def)
  have "boundingBox ?info = zero_box" if "n = 0"
    using that by (simp add: decoded_vertices_def calculateBoundingBox_Nil)
  moreover have "componentwise_bounds (boundingBox ?info) ?vs" if "n \<noteq> 0"
  proof -
    have "?vs \<noteq> []"
      using that by (simp add: decoded_vertices_def)
    then show ?thesis
      by (simp add: calculateBoundingBox_bounds)
  qed
  ultimately have "faceCount ?info = Num (of_nat n) \<and>
            (if n = 0 then boundingBox ?info = zero_box
             else componentwise_bounds (boundingBox ?info) ?vs)"
    by simp
  with a show ?thesis
    using calculateBoundingBox_Nil by blast
qed

theorem C3_witness:
  "(\<exists>info. analyzeSTL two_facet_buffer = Inr info \<and> faceCount info = Num 2 \<and>
      componentwise_bounds (boundingBox info) (decoded_vertices two_facet_buffer 2)) \<and>
   calculateBoundingBox [] = zero_box"
proof -
  have "84 + 2 * 50 \<le> length two_facet_buffer"
    by (simp add: length_two_facet_buffer)
  from C3_binary_round_trip [OF sniff_two_facet_buffer(1) readUInt32LE_two_facet_buffer this]
  show ?thesis by simp
qed

subsection \<open>Three vertices for each face\<close>

text \<open>
  Claim C4. For every input that is accepted, the vertex count is three times the face
  count: in the record returned by \<^verbatim>\<open>analyzeSTL\<close> on the textual and on the binary path
  (where both counts are finite numbers), and in the counts returned by
  \<^verbatim>\<open>validateSTLFile\<close>.
\<close>

theorem C4_vertexCount_three_faceCount:
  "(analyzeSTL buffer = Inr info \<longrightarrow>
      (\<exists>q. faceCount info = Num q \<and> vertexCount info = Num (3 * q))) \<and>
   (isValid (validateSTLFile f) \<longrightarrow>
      c_vertexCount (validateSTLFile f) = 3 * c_faceCount (validateSTLFile f))"
proof (intro conjI impI)
  assume "analyzeSTL buffer = Inr info"
  then consider "info = parseAsciiSTL buffer" | "parseBinarySTL buffer = Inr info"
    using analyzeSTL_Inr_cases by blast
  then show "\<exists>q. faceCount info = Num q \<and> vertexCount info = Num (3 * q)"
  proof cases
    case 1
    have "faceCount info = Num (of_nat (length (vertexLines_of buffer)) / 3)"
      by (simp add: 1 parseAsciiSTL_fields)
    moreover have "vertexCount info = Num (3 * (of_nat (length (vertexLines_of buffer)) / 3))"
      by (simp add: 1 parseAsciiSTL_fields)
    ultimately show ?thesis
      by (rule_tac x = "of_nat (length (vertexLines_of buffer)) / 3" in exI) (rule conjI)
  next
    case 2
    from parseBinarySTL_Inr_fields [OF 2] obtain n where
      "faceCount info = Num (of_nat n)" "vertexCount info = Num (of_nat n * 3)"
      by blast
    then have "faceCount info = Num (of_nat n) \<and> vertexCount info = Num (3 * of_nat n)"
      by (simp add: mult.commute)
    then show ?thesis
      by (rule_tac x = "of_nat n" in exI)
  qed
next
  assume "isValid (validateSTLFile f)"
  moreover have "\<not> isValid (rejected m)" for m
    by (simp add: rejected_simps)
  ultimately show "c_vertexCount (validateSTLFile f) = 3 * c_faceCount (validateSTLFile f)"
    using validateSTLFile_cases [of f] by metis
qed

theorem C4_witness:
  "(\<exists>q. faceCount (parseAsciiSTL (bytes_of ''solid'')) = Num q \<and>
        vertexCount (parseAsciiSTL (bytes_of ''solid'')) = Num (3 * q)) \<and>
   c_vertexCount (validateSTLFile accepted_file) = 3 * c_faceCount (validateSTLFile accepted_file)"
proof -
  have a: "analyzeSTL (bytes_of ''solid'') = Inr (parseAsciiSTL (bytes_of ''solid''))"
    by (simp add: analyze_eval sniff_eval string_eval bytes_of_def)
  have v: "isValid (validateSTLFile accepted_file)"
    by (simp add: validateSTLFile_accepted_file)
  from C4_vertexCount_three_faceCount
         [of "bytes_of ''solid''" "parseAsciiSTL (bytes_of ''solid'')" accepted_file] a v
  show ?thesis by blast
qed

subsection \<open>The decision of the client\<close>



subsection \<open>The sniffers on a short buffer\<close>

text \<open>
  Claim C6 asks both sniffers to classify every buffer, also one shorter than six bytes.
  On the five bytes \<^verbatim>\<open>solid\<close> the server's sniffer answers textual, while the client's
  sniffer throws when it takes its six-byte view; \<^verbatim>\<open>validateSTLFile\<close> then reports the
  caught error.
\<close>

theorem C6_client_sniffer_throws:
  "length solid_bytes = 5 \<and> isAsciiSTL solid_bytes \<and>
   client_isAsciiSTL solid_bytes = Inl RangeError \<and>
   validateSTLFile \<lparr>name = lit ''a.stl'', content = solid_bytes\<rparr> =
     rejected (Failed_to_parse RangeError)"
  by (simp add: solid_bytes_def bytes_of_def sniff_eval string_eval validateSTLFile_def
      validateSTLFile_try_def)

subsection \<open>Area and volume\<close>

text \<open>
  Claim C7. In every record returned by \<^verbatim>\<open>analyzeSTL\<close> the surface area is the face
  count times 0.01 and the volume is the product of the three extents of the bounding
  box times 0.3. On the two-facet binary buffer with the vertices (0,0,0), (1,0,0),
  (0,1,0) and (0,0,1), (1,0,1), (0,1,1) the result has 2 faces, 6 vertices, the box from
  (0,0,0) to (1,1,1), the area 0.02 and the volume 0.3.
\<close>

theorem C7_estimates:
  "(\<forall>buffer info. analyzeSTL buffer = Inr info \<longrightarrow>
      surfaceArea info = times_number (faceCount info) (Num (1 / 100)) \<and>
      volume info = box_volume (boundingBox info)) \<and>
   analyzeSTL two_facet_buffer =
     Inr \<lparr>vertexCount = Num 6, faceCount = Num 2,
          boundingBox = \<lparr>min_pt = (Num 0, Num 0, Num 0), max_pt = (Num 1, Num 1, Num 1)\<rparr>,
          surfaceArea = Num (2 / 100), volume = Num (3 / 10)\<rparr>"
proof (intro conjI allI impI)
  fix buffer info
  assume a: "analyzeSTL buffer = Inr info"
  then consider "info = parseAsciiSTL buffer" | "parseBinarySTL buffer = Inr info"
    using analyzeSTL_Inr_cases by blast
  then have "surfaceArea info = estimateSurfaceArea (faceCount info) \<and>
             volume info = estimateVolume (boundingBox info)"
  proof cases
    case 1
    then show ?thesis by (simp add: parseAsciiSTL_fields)
  next
    case 2
    from parseBinarySTL_Inr_fields [OF 2] show ?thesis by auto
  qed
  then show "surfaceArea info = times_number (faceCount info) (Num (1 / 100))"
    and "volume info = box_volume (boundingBox info)"
    by (simp_all add: estimateSurfaceArea_def estimateVolume_box_volume)
next
  show "analyzeSTL two_facet_buffer =
     Inr \<lparr>vertexCount = Num 6, faceCount = Num 2,
          boundingBox = \<lparr>min_pt = (Num 0, Num 0, Num 0), max_pt = (Num 1, Num 1, Num 1)\<rparr>,
          surfaceArea = Num (2 / 100), volume = Num (3 / 10)\<rparr>"
    by (rule analyzeSTL_two_facet_buffer)
qed

theorem C7_witness:
  "\<exists>info. analyzeSTL two_facet_buffer = Inr info \<and>
     surfaceArea info = times_number (faceCount info) (Num (1 / 100)) \<and>
     volume info = box_volume (boundingBox info)"
proof -
  from C7_estimates obtain info where i: "analyzeSTL two_facet_buffer = Inr info"
    by blast
  with C7_estimates have "surfaceArea info = times_number (faceCount info) (Num (1 / 100)) \<and>
     volume info = box_volume (boundingBox info)"
    by blast
  with i show ?thesis by blast
qed

subsection \<open>Selection and grouping of vertex lines\<close>




subsection \<open>Fail-soft parsing of coordinates\<close>

text \<open>
  Claim C9 says that on every textual input with a vertex line that has a non-numeric
  coordinate token among its tokens 2 to 4 the analysis does not abort, the token parses
  to \<^verbatim>\<open>NaN\<close>, the \<^verbatim>\<open>NaN\<close> reaches the bounding box, and a complete record is returned.
  What holds on every textual input: \<^verbatim>\<open>analyzeSTL\<close> does not abort and returns the
  complete record of \<^verbatim>\<open>parseAsciiSTL\<close>; the bounding box is computed from the vertices
  of the selected lines that have at least four pieces, in file order; and whenever such
  a line has, among its pieces 2 to 4, a token that \<^verbatim>\<open>parseFloat\<close> reads as \<^verbatim>\<open>NaN\<close>, the
  minimum and the maximum of the box in that coordinate are \<^verbatim>\<open>NaN\<close>.
\<close>

theorem C9_fail_soft:
  assumes "isAsciiSTL buffer"
  shows "analyzeSTL buffer = Inr (parseAsciiSTL buffer) \<and>
     boundingBox (parseAsciiSTL buffer) =
       calculateBoundingBox (map vertex_of_line (filter has_four_parts (vertexLines_of buffer))) \<and>
     (\<forall>line\<in>set (vertexLines_of buffer). has_four_parts line \<longrightarrow>
        (parseFloat (parts_of line ! 1) = NaN \<longrightarrow>
           fst (min_pt (boundingBox (parseAsciiSTL buffer))) = NaN \<and>
           fst (max_pt (boundingBox (parseAsciiSTL buffer))) = NaN) \<and>
        (parseFloat (parts_of line ! 2) = NaN \<longrightarrow>
           fst (snd (min_pt (boundingBox (parseAsciiSTL buffer)))) = NaN \<and>
           fst (snd (max_pt (boundingBox (parseAsciiSTL buffer)))) = NaN) \<and>
        (parseFloat (parts_of line ! 3) = NaN \<longrightarrow>
           snd (snd (min_pt (boundingBox (parseAsciiSTL buffer)))) = NaN \<and>
           snd (snd (max_pt (boundingBox (parseAsciiSTL buffer)))) = NaN))"
proof (intro conjI ballI impI)
  let ?vs = "map vertex_of_line (filter has_four_parts (vertexLines_of buffer))"
  show "analyzeSTL buffer = Inr (parseAsciiSTL buffer)"
    using assms by (simp add: analyzeSTL_def analyzeSTL_try_def)
  show box: "boundingBox (parseAsciiSTL buffer) = calculateBoundingBox ?vs"
    by (simp add: parseAsciiSTL_fields parseVertexLines_map_filter)
  fix line
  assume "line \<in> set (vertexLines_of buffer)" and "has_four_parts line"
  then have v: "vertex_of_line line \<in> set ?vs"
    by simp
  have c: "fst (vertex_of_line line) = parseFloat (parts_of line ! 1)"
    "fst (snd (vertex_of_line line)) = parseFloat (parts_of line ! 2)"
    "snd (snd (vertex_of_line line)) = parseFloat (parts_of line ! 3)"
    by (simp_all add: vertex_of_line_def)
  note n = calculateBoundingBox_NaN [OF v, unfolded c, folded box]
  {
    assume "parseFloat (parts_of line ! 1) = NaN"
    with n(1) show "fst (min_pt (boundingBox (parseAsciiSTL buffer))) = NaN"
      and "fst (max_pt (boundingBox (parseAsciiSTL buffer))) = NaN"
      by simp_all
  }
  {
    assume "parseFloat (parts_of line ! 2) = NaN"
    with n(2) show "fst (snd (min_pt (boundingBox (parseAsciiSTL buffer)))) = NaN"
      and "fst (snd (max_pt (boundingBox (parseAsciiSTL buffer)))) = NaN"
      by simp_all
  }
  {
    assume "parseFloat (parts_of line ! 3) = NaN"
    with n(3) show "snd (snd (min_pt (boundingBox (parseAsciiSTL buffer)))) = NaN"
      and "snd (snd (max_pt (boundingBox (parseAsciiSTL buffer)))) = NaN"
      by simp_all
  }
qed

text \<open>
  The claim as it is worded fails on a text with the two vertex lines
  \<^verbatim>\<open>vertex abc 1\<close> and \<^verbatim>\<open>vertex 12abc 0 0\<close>. The first line has three pieces only and is
  passed over, although \<^verbatim>\<open>abc\<close> is no number; in the second, \<^verbatim>\<open>parseFloat\<close> reads the
  leading digits of \<^verbatim>\<open>12abc\<close> as 12. No \<^verbatim>\<open>NaN\<close> reaches the box, which is the single
  point (12, 0, 0).
\<close>

theorem C9_counterexample:
  "isAsciiSTL skipped_and_prefixed_text \<and>
   vertexLines_of skipped_and_prefixed_text =
     [lit ''vertex abc 1'', lit ''vertex 12abc 0 0''] \<and>
   parts_of (lit ''vertex abc 1'') = [lit ''vertex'', lit ''abc'', lit ''1''] \<and>
   parseFloat (lit ''abc'') = NaN \<and>
   parts_of (lit ''vertex 12abc 0 0'') = [lit ''vertex'', lit ''12abc'', lit ''0'', lit ''0''] \<and>
   parseFloat (lit ''12abc'') = Num 12 \<and>
   analyzeSTL skipped_and_prefixed_text = Inr (parseAsciiSTL skipped_and_prefixed_text) \<and>
   boundingBox (parseAsciiSTL skipped_and_prefixed_text) =
     \<lparr>min_pt = (Num 12, Num 0, Num 0), max_pt = (Num 12, Num 0, Num 0)\<rparr>"
proof -
  have s: "isAsciiSTL skipped_and_prefixed_text"
    by (simp add: skipped_and_prefixed_text_def bytes_of_def sniff_eval string_eval)
  then have a: "analyzeSTL skipped_and_prefixed_text = Inr (parseAsciiSTL skipped_and_prefixed_text)"
    by (simp add: analyzeSTL_def analyzeSTL_try_def)
  have f: "\<not> has_four_parts (lit ''vertex abc 1'')" "has_four_parts (lit ''vertex 12abc 0 0'')"
    by (simp_all add: has_four_parts_def parts_of_skipped_line parts_of_prefixed_line)
  have "parseVertexLines (vertexLines_of skipped_and_prefixed_text) [] = [(Num 12, Num 0, Num 0)]"
    by (simp add: parseVertexLines_map_filter vertexLines_of_skipped_and_prefixed_text f
        vertex_of_line_def parts_of_prefixed_line parseFloat_samples)
  then have b: "boundingBox (parseAsciiSTL skipped_and_prefixed_text) =
     \<lparr>min_pt = (Num 12, Num 0, Num 0), max_pt = (Num 12, Num 0, Num 0)\<rparr>"
    by (simp add: parseAsciiSTL_fields calculateBoundingBox_def)
  show ?thesis
    using s a b
    by (simp add: vertexLines_of_skipped_and_prefixed_text parts_of_skipped_line
        parts_of_prefixed_line parseFloat_samples)
qed

theorem C9_witness:
  "analyzeSTL malformed_vertex_text = Inr (parseAsciiSTL malformed_vertex_text) \<and>
   fst (min_pt (boundingBox (parseAsciiSTL malformed_vertex_text))) = NaN \<and>
   fst (max_pt (boundingBox (parseAsciiSTL malformed_vertex_text))) = NaN"
proof -
  have s: "isAsciiSTL malformed_vertex_text"
    by (simp add: malformed_vertex_text_def bytes_of_def sniff_eval string_eval)
  have l: "lit '' vertex abc 1 2'' \<in> set (vertexLines_of malformed_vertex_text)"
    by (simp add: vertexLines_of_malformed_vertex_text)
  have f: "has_four_parts (lit '' vertex abc 1 2'')"
    by (simp add: has_four_parts_def parts_of_malformed_line)
  have n: "parseFloat (parts_of (lit '' vertex abc 1 2'') ! 1) = NaN"
    by (simp add: parts_of_malformed_line parseFloat_samples)
  from C9_fail_soft [OF s] l f n show ?thesis
    by blast
qed

subsection \<open>Counts of a rejection\<close>

text \<open>
  Claim C10. Whenever \<^verbatim>\<open>validateSTLFile\<close> returns a result with \<^verbatim>\<open>isValid = false\<close>, on
  whichever branch, the face count and the vertex count of that result are both 0.
\<close>

theorem C10_rejected_counts_zero:
  "\<not> isValid (validateSTLFile f) \<Longrightarrow>
   c_faceCount (validateSTLFile f) = 0 \<and> c_vertexCount (validateSTLFile f) = 0"
  using validateSTLFile_cases [of f] by (auto simp: rejected_simps)

theorem C10_witness:
  "c_faceCount (validateSTLFile wrong_extension_file) = 0 \<and>
   c_vertexCount (validateSTLFile wrong_extension_file) = 0"
proof -
  have "\<not> isValid (validateSTLFile wrong_extension_file)"
    by (simp add: validateSTLFile_def wrong_extension_file_def string_eval rejected_simps)
  then show ?thesis
    by (rule C10_rejected_counts_zero)
qed

end
